theory Spec2Isabelle
  imports Main "HOL-Library.Multiset" "HOL-Library.Product_Lexorder" "HOL-Library.Sublist"
begin

section \<open>Data model\<close>

text \<open>
  The program keeps each validated row as a dictionary with the six keys
  \<open>firstname\<close>, \<open>lastname\<close>, \<open>date\<close>, \<open>division\<close>, \<open>points\<close>, \<open>summary\<close>.
  \<open>division\<close> and \<open>points\<close> hold Python integers (unbounded, hence \<open>int\<close>). The
  other four entries are copied from the row as they are; \<open>csv.DictReader\<close> fills a
  column that a short row does not reach with \<open>None\<close>, so they are text or \<open>None\<close>.
  Text is a list of characters, each a code point below 256.
\<close>

type_synonym pytext = "string option"

record perf_record =
  firstname :: pytext
  lastname :: pytext
  date :: pytext
  division :: int
  points :: int
  summary :: pytext

section \<open>Record loader\<close>

subsection \<open>Exceptions, log and outcome\<close>

text \<open>
  The exception classes that occur. All are subclasses of \<open>Exception\<close>; \<open>IOFailure\<close>
  stands for whatever the file object or the CSV reader raises while reading.
  \<open>sys.exit(1)\<close> raises \<open>SystemExit\<close>, which is not a subclass of \<open>Exception\<close> and
  ends the process with the given status: it is an outcome of its own.
\<close>

datatype exn = ValueError | TypeError | KeyError | OSError | IOFailure

datatype 'a outcome = Returned 'a | Exited int

text \<open>The messages passed to \<open>logging\<close>, by level and content.\<close>

datatype log_entry =
    Error_missing_columns "string set"
  | Warning_skipping_row "string list" exn
  | Warning_no_valid_records
  | Error_reading_csv exn
  | Info_processing_file string
  | Error_no_valid_records
  | Info_read_records nat string
  | Info_selected_top int
  | Info_formatted string
  | Info_output_written string
  | Error_write_failed
  | Info_output_printed

subsection \<open>The input as the CSV reader delivers it\<close>

text \<open>
  \<open>open(file_path)\<close> fails, or gives a file that \<open>csv.reader\<close> cuts into rows, each a
  list of strings; reading a row may fail. The tokenizer of the \<open>csv\<close> module is outside
  the program, so the input starts at its rows.
\<close>

datatype csv_item = Row "string list" | ReadFailure

datatype csv_source = CannotOpen | Opened "csv_item list"

type_synonym filesystem = "string \<Rightarrow> csv_source"

text \<open>
  \<open>DictReader.fieldnames\<close>: the first row the reader yields, \<open>None\<close> when there is none
  (\<open>StopIteration\<close> is caught); any other exception of the reader goes through.
\<close>

fun fieldnames_of :: "csv_item list \<Rightarrow> exn + string list option" where
  "fieldnames_of [] = Inr None"
| "fieldnames_of (Row r # rest) = Inr (Some r)"
| "fieldnames_of (ReadFailure # rest) = Inl IOFailure"

text \<open>
  The dictionary \<open>DictReader\<close> builds for a row: \<open>dict(zip(fieldnames, row))\<close>, then every
  field name beyond the end of a short row is set to \<open>None\<close>. A later field name of the
  same text overrides an earlier one. The surplus values of a long row are stored under
  the key \<open>None\<close>, which no lookup of the program uses; they are left out.
\<close>

definition dict_row :: "string list \<Rightarrow> string list \<Rightarrow> (string \<rightharpoonup> pytext)" where
  "dict_row fieldnames row =
     map_of (rev (zip fieldnames
                      (map Some row @ replicate (length fieldnames - length row) None)))"

text \<open>\<open>row[key]\<close>.\<close>

definition getitem :: "(string \<rightharpoonup> pytext) \<Rightarrow> string \<Rightarrow> exn + pytext" where
  "getitem row key = (case row key of None \<Rightarrow> Inl KeyError | Some v \<Rightarrow> Inr v)"

subsection \<open>\<open>int(text)\<close>\<close>

text \<open>
  The built-in \<open>int\<close> on a string, base 10: surrounding whitespace is dropped, then an
  optional sign, then digits, where single underscores may stand between digits.
  \<open>None\<close> is not a string: \<open>TypeError\<close>. The limit on the number of digits that
  interpreters from 3.11 on apply is not part of the model.
\<close>

definition is_py_space :: "char \<Rightarrow> bool" where
  "is_py_space c \<longleftrightarrow>
     c \<in> set [CHR 0x09, CHR 0x0A, CHR 0x0B, CHR 0x0C, CHR 0x0D, CHR 0x20, CHR 0x85, CHR 0xA0]"

definition strip :: "string \<Rightarrow> string" where
  "strip s = rev (dropWhile is_py_space (rev (dropWhile is_py_space s)))"

definition digit_value :: "char \<Rightarrow> nat option" where
  "digit_value c = map_of (zip ''0123456789'' [0, 1, 2, 3, 4, 5, 6, 7, 8, 9]) c"

fun int_digits :: "nat \<Rightarrow> string \<Rightarrow> nat option" where
  "int_digits acc [] = Some acc"
| "int_digits acc [c] =
     (case digit_value c of Some d \<Rightarrow> Some (10 * acc + d) | None \<Rightarrow> None)"
| "int_digits acc (c # c' # cs) =
     (case digit_value c of
        Some d \<Rightarrow> int_digits (10 * acc + d) (c' # cs)
      | None \<Rightarrow>
          (if c = CHR ''_'' then
             (case digit_value c' of
                Some d \<Rightarrow> int_digits (10 * acc + d) cs
              | None \<Rightarrow> None)
           else None))"

definition int_of_unsigned :: "string \<Rightarrow> nat option" where
  "int_of_unsigned s =
     (case s of
        [] \<Rightarrow> None
      | c # cs \<Rightarrow> (case digit_value c of None \<Rightarrow> None | Some d \<Rightarrow> int_digits d cs))"

definition int_of_string :: "string \<Rightarrow> int option" where
  "int_of_string s =
     (case strip s of
        [] \<Rightarrow> None
      | c # cs \<Rightarrow>
          (if c = CHR ''-'' then map_option (\<lambda>n. - int n) (int_of_unsigned cs)
           else if c = CHR ''+'' then map_option int (int_of_unsigned cs)
           else map_option int (int_of_unsigned (c # cs))))"

definition py_int :: "pytext \<Rightarrow> exn + int" where
  "py_int v =
     (case v of
        None \<Rightarrow> Inl TypeError
      | Some s \<Rightarrow> (case int_of_string s of None \<Rightarrow> Inl ValueError | Some n \<Rightarrow> Inr n))"

subsection \<open>\<open>datetime.strptime(text, "%Y-%m-%d").date()\<close>\<close>

text \<open>
  The format is matched as the library's regular expression does: four digits of year,
  a dash, a month written \<open>1[0-2]\<close>, \<open>0[1-9]\<close> or \<open>[1-9]\<close>, a dash, a day written
  \<open>3[01]\<close>, \<open>[12]\<close> and a digit, \<open>0[1-9]\<close>, \<open>[1-9]\<close> or a space and \<open>[1-9]\<close>, and nothing
  after it. The numbers must then form a date of the calendar from year 1 on. Any
  failure is a \<open>ValueError\<close>; \<open>None\<close> in place of the text is a \<open>TypeError\<close>.
\<close>

definition month_field :: "string \<Rightarrow> nat option" where
  "month_field s =
     (case s of
        [a] \<Rightarrow> (case digit_value a of Some d \<Rightarrow> if 1 \<le> d then Some d else None | None \<Rightarrow> None)
      | [a, b] \<Rightarrow>
          (case digit_value b of
             None \<Rightarrow> None
           | Some d \<Rightarrow>
               if a = CHR ''1'' \<and> d \<le> 2 then Some (10 + d)
               else if a = CHR ''0'' \<and> 1 \<le> d then Some d
               else None)
      | _ \<Rightarrow> None)"

definition day_field :: "string \<Rightarrow> nat option" where
  "day_field s =
     (case s of
        [a] \<Rightarrow> (case digit_value a of Some d \<Rightarrow> if 1 \<le> d then Some d else None | None \<Rightarrow> None)
      | [a, b] \<Rightarrow>
          (case digit_value b of
             None \<Rightarrow> None
           | Some d \<Rightarrow>
               if a = CHR ''3'' \<and> d \<le> 1 then Some (30 + d)
               else if a = CHR ''1'' then Some (10 + d)
               else if a = CHR ''2'' then Some (20 + d)
               else if (a = CHR ''0'' \<or> a = CHR '' '') \<and> 1 \<le> d then Some d
               else None)
      | _ \<Rightarrow> None)"

definition year_field :: "string \<Rightarrow> nat option" where
  "year_field s =
     (case map digit_value s of
        [Some a, Some b, Some c, Some d] \<Rightarrow> Some (1000 * a + 100 * b + 10 * c + d)
      | _ \<Rightarrow> None)"

definition is_leap :: "nat \<Rightarrow> bool" where
  "is_leap y \<longleftrightarrow> y mod 4 = 0 \<and> (y mod 100 \<noteq> 0 \<or> y mod 400 = 0)"

definition days_in_month :: "nat \<Rightarrow> nat \<Rightarrow> nat" where
  "days_in_month y m =
     (if m = 2 then (if is_leap y then 29 else 28)
      else if m \<in> set [4, 6, 9, 11] then 30 else 31)"

definition valid_date :: "nat \<Rightarrow> nat \<Rightarrow> nat \<Rightarrow> bool" where
  "valid_date y m d \<longleftrightarrow> 1 \<le> y \<and> 1 \<le> m \<and> m \<le> 12 \<and> 1 \<le> d \<and> d \<le> days_in_month y m"

definition date_of_string :: "string \<Rightarrow> (nat \<times> nat \<times> nat) option" where
  "date_of_string s =
     (let ys = take 4 s; r1 = drop 4 s in
      case r1 of
        [] \<Rightarrow> None
      | dash1 # r2 \<Rightarrow>
          (let ms = takeWhile (\<lambda>c. c \<noteq> CHR ''-'') r2;
               r3 = dropWhile (\<lambda>c. c \<noteq> CHR ''-'') r2 in
           case r3 of
             [] \<Rightarrow> None
           | dash2 # ds \<Rightarrow>
               (if dash1 \<noteq> CHR ''-'' then None
                else case (year_field ys, month_field ms, day_field ds) of
                  (Some y, Some m, Some d) \<Rightarrow>
                    if valid_date y m d then Some (y, m, d) else None
                | _ \<Rightarrow> None)))"

definition strptime_date :: "pytext \<Rightarrow> exn + nat \<times> nat \<times> nat" where
  "strptime_date v =
     (case v of
        None \<Rightarrow> Inl TypeError
      | Some s \<Rightarrow> (case date_of_string s of None \<Rightarrow> Inl ValueError | Some d \<Rightarrow> Inr d))"

subsection \<open>\<open>read_csv\<close>\<close>

text \<open>Sequencing of steps that may raise: the first exception ends the sequence.\<close>

definition and_then :: "exn + 'a \<Rightarrow> ('a \<Rightarrow> exn + 'b) \<Rightarrow> exn + 'b" where
  "and_then r f = (case r of Inl e \<Rightarrow> Inl e | Inr x \<Rightarrow> f x)"

text \<open>
  The body of the inner \<open>try\<close>: parse \<open>division\<close>, then \<open>points\<close>, then \<open>date\<close>, then
  build the record from the row's entries and the two parsed integers.
\<close>

definition parse_row :: "(string \<rightharpoonup> pytext) \<Rightarrow> exn + perf_record" where
  "parse_row row =
     and_then (and_then (getitem row ''division'') py_int) (\<lambda>division.
     and_then (and_then (getitem row ''points'') py_int) (\<lambda>points.
     and_then (and_then (getitem row ''date'') strptime_date) (\<lambda>date.
     and_then (getitem row ''firstname'') (\<lambda>fn.
     and_then (getitem row ''lastname'') (\<lambda>ln.
     and_then (getitem row ''date'') (\<lambda>dt.
     and_then (getitem row ''summary'') (\<lambda>sm.
       Inr \<lparr>firstname = fn, lastname = ln, date = dt,
            division = division, points = points, summary = sm\<rparr>)))))))"

definition required_columns :: "string set" where
  "required_columns =
     {''firstname'', ''lastname'', ''date'', ''division'', ''points'', ''summary''}"

text \<open>
  The loop \<open>for row in reader\<close>, with the records and the log built so far.
  \<open>DictReader\<close> passes over empty rows. A \<open>ValueError\<close> of the body is caught: the row
  is logged and skipped. Any other exception leaves the loop.
\<close>

fun read_rows ::
  "string list \<Rightarrow> csv_item list \<Rightarrow> perf_record list \<Rightarrow> log_entry list \<Rightarrow>
   log_entry list \<times> (exn + perf_record list)" where
  "read_rows fieldnames [] records log = (log, Inr records)"
| "read_rows fieldnames (ReadFailure # rest) records log = (log, Inl IOFailure)"
| "read_rows fieldnames (Row r # rest) records log =
     (if r = [] then read_rows fieldnames rest records log
      else case parse_row (dict_row fieldnames r) of
        Inr record \<Rightarrow> read_rows fieldnames rest (records @ [record]) log
      | Inl e \<Rightarrow>
          if e = ValueError
          then read_rows fieldnames rest records (log @ [Warning_skipping_row r e])
          else (log, Inl e))"

text \<open>
  \<open>read_csv\<close>: every exception that reaches the outer handler is logged and ends the
  process with status 1; so does a header that lacks a required column. With no
  header at all \<open>issubset(None)\<close> raises \<open>TypeError\<close>.
\<close>

definition read_csv :: "filesystem \<Rightarrow> string \<Rightarrow> log_entry list \<times> perf_record list outcome" where
  "read_csv fs file_path =
     (case fs file_path of
        CannotOpen \<Rightarrow> ([Error_reading_csv OSError], Exited 1)
      | Opened items \<Rightarrow>
          (case fieldnames_of items of
             Inl e \<Rightarrow> ([Error_reading_csv e], Exited 1)
           | Inr None \<Rightarrow> ([Error_reading_csv TypeError], Exited 1)
           | Inr (Some fieldnames) \<Rightarrow>
               if \<not> required_columns \<subseteq> set fieldnames
               then ([Error_missing_columns (required_columns - set fieldnames)], Exited 1)
               else
                 (case read_rows fieldnames (tl items) [] [] of
                    (log, Inl e) \<Rightarrow> (log @ [Error_reading_csv e], Exited 1)
                  | (log, Inr records) \<Rightarrow>
                      (if records = [] then log @ [Warning_no_valid_records] else log,
                       Returned records))))"

section \<open>Ranker\<close>

text \<open>
  \<open>xs[:n]\<close>: a negative bound counts from the end of the list, and a bound beyond
  either end is clipped to it.
\<close>

definition slice_upto :: "'a list \<Rightarrow> int \<Rightarrow> 'a list" where
  "slice_upto xs n =
     (if n < 0 then take (nat (int (length xs) + n)) xs else take (nat n) xs)"

text \<open>
  \<open>sorted(records, key=lambda x: (x["division"], -x["points"]))\<close>: the built-in sort is
  stable and compares the key tuples lexicographically. \<open>sort_key\<close> is the stable
  insertion sort of the list library, and pairs are ordered lexicographically.
\<close>

definition rank_key :: "perf_record \<Rightarrow> int \<times> int" where
  "rank_key x = (division x, - points x)"

definition get_top_records :: "perf_record list \<Rightarrow> int \<Rightarrow> perf_record list" where
  "get_top_records records top_n =
     (let sorted_records = sort_key rank_key records
      in slice_upto sorted_records top_n)"

section \<open>Renderer\<close>

subsection \<open>String interpolation\<close>

text \<open>
  What an f-string puts in place of a value: the decimal numeral of an integer, the
  text itself, and \<open>None\<close> for \<open>None\<close>.
\<close>

definition digit_char :: "nat \<Rightarrow> char" where
  "digit_char d = ''0123456789'' ! d"

fun str_of_nat :: "nat \<Rightarrow> string" where
  "str_of_nat n =
     (if n < 10 then [digit_char n] else str_of_nat (n div 10) @ [digit_char (n mod 10)])"

declare str_of_nat.simps [simp del]

definition str_of_int :: "int \<Rightarrow> string" where
  "str_of_int i = (if i < 0 then CHR ''-'' # str_of_nat (nat (- i)) else str_of_nat (nat i))"

definition str_of_text :: "pytext \<Rightarrow> string" where
  "str_of_text v = (case v of None \<Rightarrow> ''None'' | Some s \<Rightarrow> s)"

subsection \<open>The document handed to the serializers\<close>

text \<open>
  The Python value built by both formatters: strings, lists, and dictionaries with
  string keys, which keep the order in which the keys were inserted.
\<close>

datatype doc = DStr string | DList "doc list" | DDict "(string \<times> doc) list"

subsection \<open>\<open>json.dumps(obj, indent=n)\<close>\<close>

text \<open>
  Strings are written between double quotes with \<open>ensure_ascii\<close> escaping: the quote,
  the backslash and the control characters with a short form get it, every other
  character outside the range from space to tilde is written \<open>\u00XX\<close>.
\<close>

definition hex_digit :: "nat \<Rightarrow> char" where
  "hex_digit d = ''0123456789abcdef'' ! d"

definition json_escape_char :: "char \<Rightarrow> string" where
  "json_escape_char c =
     (let n = (of_char c :: nat) in
      if c = CHR 0x22 then [CHR 0x5C, CHR 0x22]
      else if c = CHR 0x5C then [CHR 0x5C, CHR 0x5C]
      else if c = CHR 0x0A then [CHR 0x5C, CHR ''n'']
      else if c = CHR 0x0D then [CHR 0x5C, CHR ''r'']
      else if c = CHR 0x09 then [CHR 0x5C, CHR ''t'']
      else if c = CHR 0x08 then [CHR 0x5C, CHR ''b'']
      else if c = CHR 0x0C then [CHR 0x5C, CHR ''f'']
      else if 32 \<le> n \<and> n \<le> 126 then [c]
      else [CHR 0x5C, CHR ''u'', CHR ''0'', CHR ''0'', hex_digit (n div 16), hex_digit (n mod 16)])"

definition json_string :: "string \<Rightarrow> string" where
  "json_string s = CHR 0x22 # concat (map json_escape_char s) @ [CHR 0x22]"

text \<open>\<open>sep.join(chunks)\<close>.\<close>

fun join :: "string \<Rightarrow> string list \<Rightarrow> string" where
  "join sep [] = []"
| "join sep [x] = x"
| "join sep (x # y # ys) = x @ sep @ join sep (y # ys)"

text \<open>
  A line break followed by the indentation of a nesting level: \<open>indent\<close> spaces per
  level.
\<close>

definition newline_indent :: "nat \<Rightarrow> nat \<Rightarrow> string" where
  "newline_indent indent level = CHR 0x0A # replicate (indent * level) CHR '' ''"

text \<open>
  The encoder with an indentation: an empty list is \<open>[]\<close> and an empty dictionary
  \<open>{}\<close>; otherwise every item stands on a line of its own, one level deeper, items
  are separated by a comma, a key and its value by a colon and a space, and the closing
  bracket stands on its own line at the level of the opening one.
\<close>

fun json_encode :: "nat \<Rightarrow> nat \<Rightarrow> doc \<Rightarrow> string"
  and json_items :: "nat \<Rightarrow> nat \<Rightarrow> doc list \<Rightarrow> string list"
  and json_members :: "nat \<Rightarrow> nat \<Rightarrow> (string \<times> doc) list \<Rightarrow> string list" where
  "json_encode indent level (DStr s) = json_string s"
| "json_encode indent level (DList xs) =
     (if xs = [] then ''[]''
      else ''['' @ newline_indent indent (level + 1) @
           join (CHR '','' # newline_indent indent (level + 1)) (json_items indent (level + 1) xs) @
           newline_indent indent level @ '']'')"
| "json_encode indent level (DDict kvs) =
     (if kvs = [] then ''{}''
      else ''{'' @ newline_indent indent (level + 1) @
           join (CHR '','' # newline_indent indent (level + 1)) (json_members indent (level + 1) kvs) @
           newline_indent indent level @ ''}'')"
| "json_items indent level [] = []"
| "json_items indent level (x # xs) = json_encode indent level x # json_items indent level xs"
| "json_members indent level [] = []"
| "json_members indent level ((k, v) # kvs) =
     (json_string k @ '': '' @ json_encode indent level v) # json_members indent level kvs"

definition json_dumps :: "nat \<Rightarrow> doc \<Rightarrow> string" where
  "json_dumps indent obj = json_encode indent 0 obj"

subsection \<open>\<open>yaml.dump(obj, sort_keys=b)\<close>\<close>

text \<open>
  The emitter of the YAML library is not part of the program: the formatter takes it
  as a parameter, a function of the \<open>sort_keys\<close> flag and the document.
\<close>

type_synonym yaml_dumper = "bool \<Rightarrow> doc \<Rightarrow> string"

subsection \<open>The two formatters\<close>

text \<open>
  Both run the same loop: for each record, in order, append a dictionary with the key
  \<open>name\<close> and then the key \<open>details\<close> to the list under \<open>records\<close>.
\<close>

definition format_to_yaml :: "yaml_dumper \<Rightarrow> perf_record list \<Rightarrow> string" where
  "format_to_yaml yaml_dump records =
     (let output_records =
            foldl (\<lambda>out record.
                     let name = str_of_text (firstname record) @ '' '' @
                                str_of_text (lastname record);
                         details = ''In division '' @ str_of_int (division record) @
                                   '' from '' @ str_of_text (date record) @
                                   '' performing '' @ str_of_text (summary record)
                     in out @ [DDict [(''name'', DStr name), (''details'', DStr details)]])
                  [] records
      in yaml_dump False (DDict [(''records'', DList output_records)]))"

definition format_to_json :: "perf_record list \<Rightarrow> string" where
  "format_to_json records =
     (let output_records =
            foldl (\<lambda>out record.
                     let name = str_of_text (firstname record) @ '' '' @
                                str_of_text (lastname record);
                         details = ''In division '' @ str_of_int (division record) @
                                   '' from '' @ str_of_text (date record) @
                                   '' performing '' @ str_of_text (summary record)
                     in out @ [DDict [(''name'', DStr name), (''details'', DStr details)]])
                  [] records
      in json_dumps 2 (DDict [(''records'', DList output_records)]))"

section \<open>Top-level flow\<close>

text \<open>
  \<open>main\<close> after the interactive menu, which supplies the file path, \<open>top_n\<close>, the
  output format and the optional output file (\<open>None\<close> and the empty path both mean
  standard output). \<open>writable\<close> tells whether writing the output file succeeds. The run ends with the log, what was printed, what was written
  and the exit status (0 when \<open>main\<close> returns).
\<close>

record run =
  log :: "log_entry list"
  printed :: "string option"
  written :: "(string \<times> string) option"
  exit_status :: int

definition main ::
  "yaml_dumper \<Rightarrow> filesystem \<Rightarrow> (string \<Rightarrow> bool) \<Rightarrow>
   string \<times> int \<times> string \<times> string option \<Rightarrow> run" where
  "main yaml_dump fs writable menu =
     (case menu of (file_path, top_n, output_format, output_file) \<Rightarrow>
       (let log1 = [Info_processing_file file_path] in
        (case read_csv fs file_path of
           (lg, Exited code) \<Rightarrow>
             \<lparr>log = log1 @ lg, printed = None, written = None, exit_status = code\<rparr>
         | (lg, Returned records) \<Rightarrow>
             (if records = [] then
                \<lparr>log = log1 @ lg @ [Error_no_valid_records], printed = None, written = None,
                 exit_status = 1\<rparr>
              else
                (let log2 = log1 @ lg @ [Info_read_records (length records) file_path];
                     top_records = get_top_records records top_n;
                     log3 = log2 @ [Info_selected_top top_n];
                     output = (if output_format = ''json'' then format_to_json top_records
                               else format_to_yaml yaml_dump top_records);
                     log4 = log3 @ [Info_formatted output_format];
                     to_stdout = \<lparr>log = log4 @ [Info_output_printed], printed = Some output,
                                  written = None, exit_status = 0\<rparr>
                 in (case output_file of
                       None \<Rightarrow> to_stdout
                     | Some path \<Rightarrow>
                         (if path = [] then to_stdout
                          else if writable path then
                            \<lparr>log = log4 @ [Info_output_written path], printed = None,
                             written = Some (path, output), exit_status = 0\<rparr>
                          else
                            \<lparr>log = log4 @ [Error_write_failed], printed = None,
                             written = None, exit_status = 1\<rparr>)))))))"

section \<open>Specification-side definitions and test data\<close>

text \<open>
  The order the specification asks for, in its own words: ascending by division, and
  within equal division descending by points.
\<close>

definition ranks_before :: "perf_record \<Rightarrow> perf_record \<Rightarrow> bool" where
  "ranks_before a b \<longleftrightarrow>
     division a < division b \<or> (division a = division b \<and> points b \<le> points a)"

text \<open>
  The rendered entry and document of the specification: \<open>name\<close> is first and last
  name with a space between, \<open>details\<close> is the sentence built from division, date and
  summary; the document has the one key \<open>records\<close>, with the entries in input order.
\<close>

definition entry_name :: "perf_record \<Rightarrow> string" where
  "entry_name r = str_of_text (firstname r) @ '' '' @ str_of_text (lastname r)"

definition entry_details :: "perf_record \<Rightarrow> string" where
  "entry_details r =
     ''In division '' @ str_of_int (division r) @ '' from '' @ str_of_text (date r) @
     '' performing '' @ str_of_text (summary r)"

definition rendered_entry :: "perf_record \<Rightarrow> doc" where
  "rendered_entry r = DDict [(''name'', DStr (entry_name r)), (''details'', DStr (entry_details r))]"

definition rendered_document :: "perf_record list \<Rightarrow> doc" where
  "rendered_document rs = DDict [(''records'', DList (map rendered_entry rs))]"

text \<open>
  The JSON text line by line, with two more spaces of indentation at each level of
  nesting: the document at 0, its key at 2, each entry at 4 and the keys of an entry at
  6, \<open>name\<close> before \<open>details\<close>.
\<close>

definition quoted :: "string \<Rightarrow> string" where
  "quoted s = CHR 0x22 # s @ [CHR 0x22]"

definition lines :: "string list \<Rightarrow> string" where
  "lines ls = join [CHR 0x0A] ls"

definition json_entry_text :: "perf_record \<Rightarrow> string" where
  "json_entry_text r =
     lines [''    {'',
            ''      '' @ quoted ''name'' @ '': '' @ json_string (entry_name r) @ '','',
            ''      '' @ quoted ''details'' @ '': '' @ json_string (entry_details r),
            ''    }'']"

definition json_layout :: "perf_record list \<Rightarrow> string" where
  "json_layout rs =
     (if rs = [] then lines [''{'', ''  '' @ quoted ''records'' @ '': []'', ''}'']
      else lines [''{'',
                  ''  '' @ quoted ''records'' @ '': ['',
                  join [CHR '','', CHR 0x0A] (map json_entry_text rs),
                  ''  ]'',
                  ''}''])"

text \<open>
  Reading the body of a JSON string back, as a JSON parser does: a backslash starts an
  escape, either one of the short forms or \<open>u\<close> and four hexadecimal digits (of a code
  point below 256 here); an unescaped quote or control character is not allowed.
\<close>

definition hex_value :: "char \<Rightarrow> nat option" where
  "hex_value c =
     map_of (zip ''0123456789abcdefABCDEF''
                 [0, 1, 2, 3, 4, 5, 6, 7, 8, 9, 10, 11, 12, 13, 14, 15, 10, 11, 12, 13, 14, 15]) c"

definition short_escape :: "char \<Rightarrow> char option" where
  "short_escape e =
     map_of [(CHR 0x22, CHR 0x22), (CHR 0x5C, CHR 0x5C), (CHR ''/'', CHR ''/''),
             (CHR ''b'', CHR 0x08), (CHR ''f'', CHR 0x0C), (CHR ''n'', CHR 0x0A),
             (CHR ''r'', CHR 0x0D), (CHR ''t'', CHR 0x09)] e"

definition hex4 :: "char \<Rightarrow> char \<Rightarrow> char \<Rightarrow> char \<Rightarrow> char option" where
  "hex4 a b c d =
     (case (hex_value a, hex_value b, hex_value c, hex_value d) of
        (Some h3, Some h2, Some h1, Some h0) \<Rightarrow>
          (let n = 4096 * h3 + 256 * h2 + 16 * h1 + h0
           in if n < 256 then Some (char_of n) else None)
      | _ \<Rightarrow> None)"

fun json_unescape :: "string \<Rightarrow> string option" where
  "json_unescape [] = Some []"
| "json_unescape (c # cs) =
     (if c = CHR 0x5C then
        (case cs of
           [] \<Rightarrow> None
         | e # rest \<Rightarrow>
             (if e = CHR ''u'' then
                (case rest of
                   a # b # x # y # rest' \<Rightarrow>
                     (case hex4 a b x y of
                        None \<Rightarrow> None
                      | Some d \<Rightarrow> map_option (Cons d) (json_unescape rest'))
                 | _ \<Rightarrow> None)
              else
                (case short_escape e of
                   None \<Rightarrow> None
                 | Some d \<Rightarrow> map_option (Cons d) (json_unescape rest))))
      else if c = CHR 0x22 \<or> (of_char c :: nat) < 32 then None
      else map_option (Cons c) (json_unescape cs))"

text \<open>The four sample records of the test suite.\<close>

definition john :: perf_record where
  "john = \<lparr>firstname = Some ''John'', lastname = Some ''Doe'', date = Some ''2023-05-05'',
           division = 1, points = 90, summary = Some ''Task A''\<rparr>"

definition jane :: perf_record where
  "jane = \<lparr>firstname = Some ''Jane'', lastname = Some ''Smith'', date = Some ''2023-06-06'',
           division = 2, points = 85, summary = Some ''Task B''\<rparr>"

definition alex :: perf_record where
  "alex = \<lparr>firstname = Some ''Alex'', lastname = Some ''Johnson'', date = Some ''2023-07-07'',
           division = 1, points = 80, summary = Some ''Task C''\<rparr>"

definition taylor :: perf_record where
  "taylor = \<lparr>firstname = Some ''Taylor'', lastname = Some ''Brown'', date = Some ''2023-08-08'',
             division = 2, points = 70, summary = Some ''Task D''\<rparr>"

definition sample_records :: "perf_record list" where
  "sample_records = [john, jane, alex, taylor]"

text \<open>Two records with the same division and points, told apart by their names.\<close>

definition tie_a :: perf_record where
  "tie_a = \<lparr>firstname = Some ''A'', lastname = Some ''One'', date = Some ''2024-01-01'',
            division = 1, points = 50, summary = Some ''first''\<rparr>"

definition tie_b :: perf_record where
  "tie_b = \<lparr>firstname = Some ''B'', lastname = Some ''Two'', date = Some ''2024-01-02'',
            division = 1, points = 50, summary = Some ''second''\<rparr>"

text \<open>The header and rows of the CSV files that the test suite writes.\<close>

definition header :: "string list" where
  "header = [''firstname'', ''lastname'', ''date'', ''division'', ''points'', ''summary'']"

definition row_john :: "string list" where
  "row_john = [''John'', ''Doe'', ''2023-05-05'', ''1'', ''90'', ''Task A'']"

definition row_jane :: "string list" where
  "row_jane = [''Jane'', ''Smith'', ''2023-06-06'', ''2'', ''85'', ''Task B'']"

definition row_invalid :: "string list" where
  "row_invalid =
     [''Invalid'', ''User'', ''2023-05-05'', ''invalid_division'', ''invalid_points'', ''Task X'']"

text \<open>A row that stops after the date: the line \<open>John,Doe,2023-05-05\<close>.\<close>

definition row_short :: "string list" where
  "row_short = [''John'', ''Doe'', ''2023-05-05'']"

text \<open>The header with the first column name capitalised.\<close>

definition header_capital :: "string list" where
  "header_capital = [''Firstname'', ''lastname'', ''date'', ''division'', ''points'', ''summary'']"

text \<open>A file system in which every path holds the given rows.\<close>

definition file_with :: "csv_item list \<Rightarrow> filesystem" where
  "file_with items = (\<lambda>path. Opened items)"

text \<open>
  What the specification expects of the loader on a header and data rows: the records
  of the rows that parse, in order, and a warning for each row that does not.
\<close>

definition valid_records :: "string list \<Rightarrow> string list list \<Rightarrow> perf_record list" where
  "valid_records fieldnames rows =
     concat (map (\<lambda>r. case parse_row (dict_row fieldnames r) of
                         Inr record \<Rightarrow> [record] | Inl e \<Rightarrow> [])
                 (filter (\<lambda>r. r \<noteq> []) rows))"

definition skip_warnings :: "string list \<Rightarrow> string list list \<Rightarrow> log_entry list" where
  "skip_warnings fieldnames rows =
     concat (map (\<lambda>r. case parse_row (dict_row fieldnames r) of
                         Inr record \<Rightarrow> [] | Inl e \<Rightarrow> [Warning_skipping_row r e])
                 (filter (\<lambda>r. r \<noteq> []) rows))"

section \<open>Properties of the ranker\<close>

lemma rank_key_le_iff: "rank_key a \<le> rank_key b \<longleftrightarrow> ranks_before a b"
  by (auto simp: rank_key_def ranks_before_def)

lemma sorted_rank_key_iff: "sorted (map rank_key xs) \<longleftrightarrow> sorted_wrt ranks_before xs"
  by (simp add: sorted_map rank_key_le_iff [abs_def])

lemma ranked_sort_key: "sorted_wrt ranks_before (sort_key rank_key xs)"
  using sorted_sort_key [of rank_key xs] by (simp only: sorted_rank_key_iff)

lemma sample_sorted:
  "sort_key rank_key sample_records = [john, alex, jane, taylor]"
  by (simp add: sample_records_def rank_key_def john_def jane_def alex_def taylor_def)

text \<open>
  C1. For a non-negative \<open>top_n\<close>, \<open>get_top_records\<close> returns the first \<open>top_n\<close> elements
  of a rearrangement of the input that is ordered ascending by division and, within
  equal division, descending by points. On the four sample rows with divisions and
  points (1,90), (2,85), (1,80), (2,70) and \<open>top_n = 2\<close> the result is the rows
  (1,90), (1,80).
\<close>

theorem get_top_records_sorted_prefix:
  "0 \<le> top_n \<Longrightarrow>
     (\<exists>ys. mset ys = mset records \<and> sorted_wrt ranks_before ys \<and>
           get_top_records records top_n = take (nat top_n) ys) \<and>
     get_top_records sample_records 2 = [john, alex] \<and>
     map (\<lambda>r. (division r, points r)) sample_records = [(1, 90), (2, 85), (1, 80), (2, 70)]"
proof -
  assume n: "0 \<le> top_n"
  let ?ys = "sort_key rank_key records"
  have "mset ?ys = mset records" by simp
  moreover have "sorted_wrt ranks_before ?ys" by (rule ranked_sort_key)
  moreover have "get_top_records records top_n = take (nat top_n) ?ys"
    using n by (simp add: get_top_records_def slice_upto_def)
  ultimately have general: "\<exists>ys. mset ys = mset records \<and> sorted_wrt ranks_before ys \<and>
           get_top_records records top_n = take (nat top_n) ys"
    by blast
  have example: "get_top_records sample_records 2 = [john, alex]"
    by (simp add: get_top_records_def slice_upto_def sample_sorted)
  have rows: "map (\<lambda>r. (division r, points r)) sample_records = [(1, 90), (2, 85), (1, 80), (2, 70)]"
    by (simp add: sample_records_def john_def jane_def alex_def taylor_def)
  from general example rows show ?thesis by blast
qed

theorem get_top_records_sorted_prefix_witness:
  "(0::int) \<le> 2 \<and>
   (\<exists>ys. mset ys = mset sample_records \<and> sorted_wrt ranks_before ys \<and>
         get_top_records sample_records 2 = take (nat 2) ys) \<and>
   get_top_records sample_records 2 = [john, alex]"
proof -
  have h: "(0::int) \<le> 2" by simp
  from h get_top_records_sorted_prefix [OF h, of sample_records] show ?thesis
    by blast
qed

lemma filter_key_sorted:
  "filter (\<lambda>r. division r = d \<and> points r = p) (sort_key rank_key xs) =
   filter (\<lambda>r. division r = d \<and> points r = p) xs"
proof -
  have eq: "(\<lambda>r. division r = d \<and> points r = p) = (\<lambda>r. rank_key r = (d, - p))"
    by (auto simp: rank_key_def)
  show ?thesis unfolding eq by (rule sort_key_stable)
qed

lemma prefix_slice_upto: "prefix (slice_upto xs n) xs"
  by (simp add: slice_upto_def take_is_prefix)

lemma stable_prefix:
  "prefix (filter (\<lambda>r. division r = d \<and> points r = p) (get_top_records records top_n))
          (filter (\<lambda>r. division r = d \<and> points r = p) records)"
proof -
  let ?P = "\<lambda>r. division r = d \<and> points r = p"
  have "prefix (get_top_records records top_n) (sort_key rank_key records)"
    by (simp add: get_top_records_def prefix_slice_upto)
  then have "prefix (filter ?P (get_top_records records top_n)) (filter ?P (sort_key rank_key records))"
    by (rule filter_mono_prefix)
  then show ?thesis by (simp only: filter_key_sorted)
qed

lemma stable_pair:
  assumes "subseq [r1, r2] (get_top_records records top_n)"
    and "division r1 = division r2" and "points r1 = points r2"
  shows "subseq [r1, r2] records"
proof -
  let ?P = "\<lambda>r. division r = division r1 \<and> points r = points r1"
  let ?out = "get_top_records records top_n"
  have "subseq (filter ?P [r1, r2]) (filter ?P ?out)"
    using assms(1) by (rule subseq_filter)
  then have "subseq [r1, r2] (filter ?P ?out)" using assms(2,3) by simp
  moreover have "subseq (filter ?P ?out) (filter ?P records)"
    using stable_prefix [of "division r1" "points r1" records top_n] by (rule prefix_imp_subseq)
  moreover have "subseq (filter ?P records) records" by (rule subseq_filter_left)
  ultimately show ?thesis by (meson subseq_order.order_trans)
qed

text \<open>
  C3. Ranking is stable: for every division \<open>d\<close> and points \<open>p\<close>, the records of the
  result with that division and those points are, in the same order, an initial part of
  the records of the input with that division and those points. In particular, when
  \<open>r1\<close> stands before \<open>r2\<close> in the result and the two have equal division and equal
  points, \<open>r1\<close> stands before \<open>r2\<close> in the input: the ranking never swaps two records
  with equal keys.
\<close>

theorem get_top_records_stable:
  "prefix (filter (\<lambda>r. division r = d \<and> points r = p) (get_top_records records top_n))
          (filter (\<lambda>r. division r = d \<and> points r = p) records) \<and>
   (subseq [r1, r2] (get_top_records records top_n) \<and>
    division r1 = division r2 \<and> points r1 = points r2 \<longrightarrow> subseq [r1, r2] records)"
  using stable_prefix stable_pair by blast

theorem get_top_records_stable_witness:
  "get_top_records [jane, tie_a, john, tie_b] 3 = [john, tie_a, tie_b] \<and>
   subseq [tie_a, tie_b] (get_top_records [jane, tie_a, john, tie_b] 3) \<and>
   division tie_a = division tie_b \<and> points tie_a = points tie_b \<and>
   subseq [tie_a, tie_b] [jane, tie_a, john, tie_b] \<and>
   prefix (filter (\<lambda>r. division r = 1 \<and> points r = 50) (get_top_records [jane, tie_a, john, tie_b] 3))
          (filter (\<lambda>r. division r = 1 \<and> points r = 50) [jane, tie_a, john, tie_b]) \<and>
   get_top_records [jane, tie_b, john, tie_a] 3 = [john, tie_b, tie_a]"
proof -
  have a: "get_top_records [jane, tie_a, john, tie_b] 3 = [john, tie_a, tie_b]"
    by (simp add: get_top_records_def slice_upto_def rank_key_def john_def jane_def
        tie_a_def tie_b_def)
  have b: "get_top_records [jane, tie_b, john, tie_a] 3 = [john, tie_b, tie_a]"
    by (simp add: get_top_records_def slice_upto_def rank_key_def john_def jane_def
        tie_a_def tie_b_def)
  have c: "subseq [tie_a, tie_b] (get_top_records [jane, tie_a, john, tie_b] 3)"
    by (simp add: a)
  have d: "division tie_a = division tie_b \<and> points tie_a = points tie_b"
    by (simp add: tie_a_def tie_b_def)
  note t = get_top_records_stable [of 1 50 "[jane, tie_a, john, tie_b]" 3 tie_a tie_b]
  from t c d have "subseq [tie_a, tie_b] [jane, tie_a, john, tie_b]" by blast
  with t a b c d show ?thesis by blast
qed

text \<open>
  C5. Ranking is idempotent: for a non-negative \<open>top_n\<close>, ranking the result of a ranking
  again with the same \<open>top_n\<close> returns that result.
\<close>

theorem get_top_records_idempotent:
  "0 \<le> top_n \<Longrightarrow>
     get_top_records (get_top_records records top_n) top_n = get_top_records records top_n"
proof -
  assume n: "0 \<le> top_n"
  let ?ys = "take (nat top_n) (sort_key rank_key records)"
  have "sorted (map rank_key ?ys)"
    by (simp add: take_map [symmetric] sorted_wrt_take)
  then have "sort_key rank_key ?ys = ?ys" by (rule sort_key_id_if_sorted)
  then show ?thesis using n by (simp add: get_top_records_def slice_upto_def)
qed

theorem get_top_records_idempotent_witness:
  "(0::int) \<le> 2 \<and>
   get_top_records (get_top_records sample_records 2) 2 = get_top_records sample_records 2"
proof -
  have h: "(0::int) \<le> 2" by simp
  from h get_top_records_idempotent [OF h, of sample_records] show ?thesis by blast
qed

text \<open>
  C6. When \<open>top_n\<close> is at least the length of the input, the result is a rearrangement
  of the whole input, in ranking order, of the same length; the function is total, so
  there is no error. On the empty input the result is empty, whatever \<open>top_n\<close> is.
\<close>

theorem get_top_records_whole:
  "(int (length records) \<le> top_n \<longrightarrow>
      mset (get_top_records records top_n) = mset records \<and>
      sorted_wrt ranks_before (get_top_records records top_n) \<and>
      length (get_top_records records top_n) = length records) \<and>
   get_top_records [] m = []"
proof -
  have "get_top_records records top_n = sort_key rank_key records"
    if "int (length records) \<le> top_n"
    using that by (simp add: get_top_records_def slice_upto_def)
  moreover have "get_top_records [] m = []"
    by (simp add: get_top_records_def slice_upto_def)
  ultimately show ?thesis by (simp add: ranked_sort_key)
qed

theorem get_top_records_whole_witness:
  "int (length sample_records) \<le> 10 \<and>
   mset (get_top_records sample_records 10) = mset sample_records \<and>
   sorted_wrt ranks_before (get_top_records sample_records 10) \<and>
   length (get_top_records sample_records 10) = length sample_records \<and>
   get_top_records [] 3 = []"
proof -
  have h: "int (length sample_records) \<le> 10" by (simp add: sample_records_def)
  from h get_top_records_whole [of sample_records 10 3] show ?thesis by blast
qed

text \<open>
  C10. For a negative \<open>top_n\<close> the function still returns: the result is the ranked
  input without its last \<open>|top_n|\<close> elements (all of them when there are fewer), and it
  is empty exactly when \<open>|top_n|\<close> is at least the length of the input.
\<close>

theorem get_top_records_negative:
  "top_n < 0 \<Longrightarrow>
     (\<exists>ys zs. mset (ys @ zs) = mset records \<and> sorted_wrt ranks_before (ys @ zs) \<and>
             length zs = min (nat (- top_n)) (length records) \<and>
             get_top_records records top_n = ys) \<and>
     (get_top_records records top_n = [] \<longleftrightarrow> length records \<le> nat (- top_n))"
proof -
  assume n: "top_n < 0"
  let ?s = "sort_key rank_key records"
  let ?k = "nat (int (length records) + top_n)"
  have res: "get_top_records records top_n = take ?k ?s"
    using n by (simp add: get_top_records_def slice_upto_def)
  have "mset (take ?k ?s @ drop ?k ?s) = mset records" by simp
  moreover have "sorted_wrt ranks_before (take ?k ?s @ drop ?k ?s)"
    by (simp add: ranked_sort_key)
  moreover have "length (drop ?k ?s) = min (nat (- top_n)) (length records)"
    using n by (simp add: min_def) linarith
  ultimately have A: "\<exists>ys zs. mset (ys @ zs) = mset records \<and> sorted_wrt ranks_before (ys @ zs) \<and>
             length zs = min (nat (- top_n)) (length records) \<and>
             get_top_records records top_n = ys"
    using res by blast
  have B: "get_top_records records top_n = [] \<longleftrightarrow> length records \<le> nat (- top_n)"
  proof -
    have "take ?k ?s = [] \<longleftrightarrow> ?k = 0 \<or> length ?s = 0"
      by (simp only: take_eq_Nil length_0_conv)
    also have "\<dots> \<longleftrightarrow> length records \<le> nat (- top_n)"
      using n by (simp only: length_sort) linarith
    finally show ?thesis by (simp only: res)
  qed
  from A B show ?thesis by blast
qed

theorem get_top_records_negative_witness:
  "(- 1 :: int) < 0 \<and>
   (\<exists>ys zs. mset (ys @ zs) = mset sample_records \<and> sorted_wrt ranks_before (ys @ zs) \<and>
           length zs = min (nat (- (- 1))) (length sample_records) \<and>
           get_top_records sample_records (- 1) = ys) \<and>
   get_top_records sample_records (- 1) = [john, alex, jane] \<and>
   get_top_records sample_records (- 3) = [john]"
proof -
  have h: "(- 1 :: int) < 0" by simp
  have "get_top_records sample_records (- 1) = [john, alex, jane]"
    by (simp add: get_top_records_def slice_upto_def sample_sorted)
  moreover have "get_top_records sample_records (- 3) = [john]"
    by (simp add: get_top_records_def slice_upto_def sample_sorted)
  ultimately show ?thesis
    using h get_top_records_negative [OF h, of sample_records] by blast
qed

section \<open>Properties of the loader\<close>

lemma read_rows_failure:
  "ReadFailure \<in> set items \<Longrightarrow> \<exists>e. snd (read_rows fieldnames items records lg) = Inl e"
proof (induction items arbitrary: records lg)
  case Nil
  then show ?case by simp
next
  case (Cons item items)
  show ?case
  proof (cases item)
    case ReadFailure
    then show ?thesis by simp
  next
    case (Row r)
    with Cons.prems have later: "ReadFailure \<in> set items" by simp
    show ?thesis
      using Cons.IH [OF later] Row
      by (simp split: sum.split)
  qed
qed

lemma read_csv_unopened: "fs p = CannotOpen \<Longrightarrow> snd (read_csv fs p) = Exited 1"
  by (simp add: read_csv_def)

lemma read_csv_no_header: "fs p = Opened [] \<Longrightarrow> snd (read_csv fs p) = Exited 1"
  by (simp add: read_csv_def)

lemma read_csv_read_failure:
  assumes "fs p = Opened items" and "ReadFailure \<in> set items"
  shows "snd (read_csv fs p) = Exited 1"
proof (cases items)
  case Nil
  with assms show ?thesis by simp
next
  case (Cons item rest)
  show ?thesis
  proof (cases item)
    case ReadFailure
    with Cons assms show ?thesis by (simp add: read_csv_def)
  next
    case (Row h)
    with Cons assms have "ReadFailure \<in> set rest" by simp
    from read_rows_failure [OF this, of h "[]" "[]"]
    obtain e where "snd (read_rows h rest [] []) = Inl e" by blast
    then obtain lg where "read_rows h rest [] [] = (lg, Inl e)"
      by (cases "read_rows h rest [] []") simp
    with Cons Row assms show ?thesis by (simp add: read_csv_def)
  qed
qed

lemma read_csv_missing_column:
  assumes "fs p = Opened (Row h # rows)" and "c \<in> required_columns" and "c \<notin> set h"
  shows "read_csv fs p = ([Error_missing_columns (required_columns - set h)], Exited 1)"
proof -
  from assms(2,3) have "\<not> required_columns \<subseteq> set h" by blast
  with assms(1) show ?thesis by (simp add: read_csv_def)
qed

text \<open>
  C7. \<open>read_csv\<close> ends the process with exit status 1 when the file cannot be opened,
  when reading it fails at any row, when it has no header row at all, and when a
  required column name is not among the names of the header row (compared as exact
  text, so a name in another letter case does not count).
\<close>

theorem read_csv_fatal:
  "(fs file_path = CannotOpen \<longrightarrow> snd (read_csv fs file_path) = Exited 1) \<and>
   (fs file_path = Opened items \<and> ReadFailure \<in> set items \<longrightarrow>
      snd (read_csv fs file_path) = Exited 1) \<and>
   (fs file_path = Opened [] \<longrightarrow> snd (read_csv fs file_path) = Exited 1) \<and>
   (fs file_path = Opened (Row fieldnames # rows) \<and> c \<in> required_columns \<and> c \<notin> set fieldnames \<longrightarrow>
      read_csv fs file_path =
        ([Error_missing_columns (required_columns - set fieldnames)], Exited 1))"
proof (intro conjI impI)
  assume "fs file_path = CannotOpen"
  then show "snd (read_csv fs file_path) = Exited 1" by (rule read_csv_unopened)
next
  assume "fs file_path = Opened items \<and> ReadFailure \<in> set items"
  then show "snd (read_csv fs file_path) = Exited 1"
    using read_csv_read_failure [of fs file_path items] by simp
next
  assume "fs file_path = Opened []"
  then show "snd (read_csv fs file_path) = Exited 1" by (rule read_csv_no_header)
next
  assume "fs file_path = Opened (Row fieldnames # rows) \<and> c \<in> required_columns \<and> c \<notin> set fieldnames"
  then show "read_csv fs file_path =
        ([Error_missing_columns (required_columns - set fieldnames)], Exited 1)"
    using read_csv_missing_column [of fs file_path fieldnames rows c] by simp
qed

theorem read_csv_fatal_witness:
  "snd (read_csv (\<lambda>path. CannotOpen) ''non_existent.csv'') = Exited 1 \<and>
   ReadFailure \<in> set [Row header, Row row_john, ReadFailure] \<and>
   snd (read_csv (file_with [Row header, Row row_john, ReadFailure]) ''data.csv'') = Exited 1 \<and>
   snd (read_csv (file_with []) ''data.csv'') = Exited 1 \<and>
   ''firstname'' \<in> required_columns \<and> ''firstname'' \<notin> set header_capital \<and>
   read_csv (file_with [Row header_capital, Row row_john]) ''data.csv'' =
     ([Error_missing_columns (required_columns - set header_capital)], Exited 1)"
proof -
  have a: "snd (read_csv (\<lambda>path. CannotOpen) ''non_existent.csv'') = Exited 1"
    using read_csv_fatal [of "\<lambda>path. CannotOpen" "''non_existent.csv''"] by simp
  have b: "snd (read_csv (file_with [Row header, Row row_john, ReadFailure]) ''data.csv'') = Exited 1"
    using read_csv_fatal [of "file_with [Row header, Row row_john, ReadFailure]" "''data.csv''"
        "[Row header, Row row_john, ReadFailure]"]
    by (simp add: file_with_def)
  have c: "snd (read_csv (file_with []) ''data.csv'') = Exited 1"
    using read_csv_fatal [of "file_with []" "''data.csv''"] by (simp add: file_with_def)
  have d1: "''firstname'' \<in> required_columns" by (simp add: required_columns_def)
  have d2: "''firstname'' \<notin> set header_capital" by (simp add: header_capital_def)
  have d: "read_csv (file_with [Row header_capital, Row row_john]) ''data.csv'' =
     ([Error_missing_columns (required_columns - set header_capital)], Exited 1)"
    using d1 d2 read_csv_fatal [of "file_with [Row header_capital, Row row_john]" "''data.csv''"
        _ header_capital "[Row row_john]" "''firstname''"]
    by (simp add: file_with_def)
  from a b c d d1 d2 show ?thesis by simp
qed

subsection \<open>Rows that are skipped and rows that end the process\<close>

text \<open>
  A row that has a value for every column of the header can only fail with a
  \<open>ValueError\<close>, which the loop catches: the loader then returns the records of the
  rows that parse and logs a warning for every other row, and one more when no record
  is left.
\<close>

lemma dict_row_full:
  assumes "length h \<le> length r" and "k \<in> set h"
  shows "\<exists>v. dict_row h r k = Some (Some v)"
proof -
  let ?ps = "zip h (map Some r)"
  have d: "dict_row h r = map_of (rev ?ps)"
    using assms(1) by (simp add: dict_row_def)
  have "map fst ?ps = h" using assms(1) by (simp add: map_fst_zip_take)
  then have "fst ` set (rev ?ps) = set h" by (metis set_map set_rev)
  with assms(2) have "map_of (rev ?ps) k \<noteq> None"
    by (simp add: map_of_eq_None_iff)
  then obtain x where x: "map_of (rev ?ps) k = Some x" by blast
  then have "(k, x) \<in> set ?ps" using map_of_SomeD by fastforce
  then have "x \<in> set (map Some r)" by (rule set_zip_rightD)
  then obtain v where "x = Some v" by auto
  with x d show ?thesis by simp
qed

lemma getitem_full:
  assumes "length h \<le> length r" and "k \<in> set h"
  shows "\<exists>v. getitem (dict_row h r) k = Inr (Some v)"
  using dict_row_full [OF assms] by (auto simp: getitem_def)

lemma py_int_text: "py_int (Some s) = Inl e \<Longrightarrow> e = ValueError"
  by (auto simp: py_int_def split: option.splits)

lemma strptime_date_text: "strptime_date (Some s) = Inl e \<Longrightarrow> e = ValueError"
  by (auto simp: strptime_date_def split: option.splits)

lemma parse_row_full:
  assumes req: "required_columns \<subseteq> set h" and len: "length h \<le> length r"
    and err: "parse_row (dict_row h r) = Inl e"
  shows "e = ValueError"
proof -
  let ?row = "dict_row h r"
  have k: "\<And>k. k \<in> required_columns \<Longrightarrow> \<exists>v. getitem ?row k = Inr (Some v)"
    using req len getitem_full by blast
  obtain dv where dv: "getitem ?row ''division'' = Inr (Some dv)"
    using k [of "''division''"] by (auto simp: required_columns_def)
  obtain pv where pv: "getitem ?row ''points'' = Inr (Some pv)"
    using k [of "''points''"] by (auto simp: required_columns_def)
  obtain dt where dt: "getitem ?row ''date'' = Inr (Some dt)"
    using k [of "''date''"] by (auto simp: required_columns_def)
  obtain fn where fn: "getitem ?row ''firstname'' = Inr (Some fn)"
    using k [of "''firstname''"] by (auto simp: required_columns_def)
  obtain ln where ln: "getitem ?row ''lastname'' = Inr (Some ln)"
    using k [of "''lastname''"] by (auto simp: required_columns_def)
  obtain sm where sm: "getitem ?row ''summary'' = Inr (Some sm)"
    using k [of "''summary''"] by (auto simp: required_columns_def)
  from err show ?thesis
    unfolding parse_row_def and_then_def dv pv dt fn ln sm
    by (auto split: sum.splits dest: py_int_text strptime_date_text)
qed

lemma read_rows_value_errors:
  assumes "\<forall>r \<in> set rows. r \<noteq> [] \<longrightarrow> (\<forall>e. parse_row (dict_row h r) = Inl e \<longrightarrow> e = ValueError)"
  shows "read_rows h (map Row rows) recs lg =
           (lg @ skip_warnings h rows, Inr (recs @ valid_records h rows))"
  using assms
proof (induction rows arbitrary: recs lg)
  case Nil
  then show ?case by (simp add: skip_warnings_def valid_records_def)
next
  case (Cons r rows)
  then have IH: "\<And>recs lg. read_rows h (map Row rows) recs lg =
           (lg @ skip_warnings h rows, Inr (recs @ valid_records h rows))"
    by simp
  show ?case
  proof (cases "r = []")
    case True
    then show ?thesis by (simp add: IH skip_warnings_def valid_records_def)
  next
    case False
    show ?thesis
    proof (cases "parse_row (dict_row h r)")
      case (Inl e)
      with False Cons.prems have "e = ValueError" by simp
      with Inl False show ?thesis by (simp add: IH skip_warnings_def valid_records_def)
    next
      case (Inr parsed)
      with False show ?thesis by (simp add: IH skip_warnings_def valid_records_def)
    qed
  qed
qed

lemma read_csv_value_errors:
  assumes "fs p = Opened (Row h # map Row rows)" and "required_columns \<subseteq> set h"
    and "\<forall>r \<in> set rows. r \<noteq> [] \<longrightarrow> (\<forall>e. parse_row (dict_row h r) = Inl e \<longrightarrow> e = ValueError)"
  shows "read_csv fs p =
           (skip_warnings h rows @
              (if valid_records h rows = [] then [Warning_no_valid_records] else []),
            Returned (valid_records h rows))"
  using assms(1,2) by (simp add: read_csv_def read_rows_value_errors [OF assms(3)])

lemma read_csv_full_rows:
  assumes "fs p = Opened (Row h # map Row rows)" and "required_columns \<subseteq> set h"
    and "\<forall>r \<in> set rows. r \<noteq> [] \<longrightarrow> length h \<le> length r"
  shows "read_csv fs p =
           (skip_warnings h rows @
              (if valid_records h rows = [] then [Warning_no_valid_records] else []),
            Returned (valid_records h rows))"
proof -
  have "\<forall>r \<in> set rows. r \<noteq> [] \<longrightarrow> (\<forall>e. parse_row (dict_row h r) = Inl e \<longrightarrow> e = ValueError)"
    using assms(2,3) parse_row_full by blast
  with assms(1,2) show ?thesis by (rule read_csv_value_errors [of fs p h rows])
qed

lemma main_fatal_on_empty:
  assumes "read_csv fs file_path = (lg, Returned [])"
  shows "main yaml_dump fs writable (file_path, top_n, output_format, output_file) =
           \<lparr>log = [Info_processing_file file_path] @ lg @ [Error_no_valid_records],
            printed = None, written = None, exit_status = 1\<rparr>"
  using assms by (simp add: main_def)

lemma main_passes_loader_exit:
  assumes "read_csv fs file_path = (lg, Exited code)"
  shows "exit_status (main yaml_dump fs writable (file_path, top_n, output_format, output_file)) = code"
  using assms by (simp add: main_def)

lemma read_csv_test_files:
  "read_csv (file_with [Row header, Row row_john, Row row_jane]) ''test_sample.csv'' =
     ([], Returned [john, jane])"
  "read_csv (file_with [Row header, Row row_invalid]) ''invalid.csv'' =
     ([Warning_skipping_row row_invalid ValueError, Warning_no_valid_records], Returned [])"
  by code_simp+

text \<open>
  C2. The claim: a data row whose division, points or date fails to parse is skipped
  with a warning, the remaining rows are processed, and no malformed data row ends the
  process. The program does otherwise on a row that is too short to reach the division
  column: the header is complete, the first data row is \<open>John,Doe,2023-05-05\<close>, the
  second is valid. \<open>DictReader\<close> sets \<open>division\<close> to \<open>None\<close>, \<open>int(None)\<close> raises
  \<open>TypeError\<close>, the inner handler catches \<open>ValueError\<close> only, and the outer handler ends
  the process with status 1; the valid row is never read.
\<close>

theorem read_csv_short_row_exits:
  "parse_row (dict_row header row_short) = Inl TypeError \<and>
   read_csv (file_with [Row header, Row row_short, Row row_john]) ''data.csv'' =
     ([Error_reading_csv TypeError], Exited 1)"
  by code_simp

text \<open>
  C8. The claim: when every data row of a readable file with a complete header fails
  validation, \<open>read_csv\<close> logs a warning and returns the empty list, and only \<open>main\<close>
  ends the process. The program does otherwise when one of the failing rows is too
  short: with the rows \<open>Invalid,User,2023-05-05,invalid_division,invalid_points,Task X\<close>
  and \<open>John,Doe,2023-05-05\<close> the first is skipped with a warning and the second ends
  the process inside \<open>read_csv\<close>, so \<open>main\<close> never reaches its own check for an empty
  result.
\<close>

theorem read_csv_all_invalid_exits:
  "read_csv (file_with [Row header, Row row_invalid, Row row_short]) ''invalid.csv'' =
     ([Warning_skipping_row row_invalid ValueError, Error_reading_csv TypeError], Exited 1) \<and>
   main yaml_dump (file_with [Row header, Row row_invalid, Row row_short]) writable
        (''invalid.csv'', 3, ''yaml'', None) =
     \<lparr>log = [Info_processing_file ''invalid.csv'',
             Warning_skipping_row row_invalid ValueError, Error_reading_csv TypeError],
      printed = None, written = None, exit_status = 1\<rparr>"
proof -
  have loader: "read_csv (file_with [Row header, Row row_invalid, Row row_short]) ''invalid.csv'' =
     ([Warning_skipping_row row_invalid ValueError, Error_reading_csv TypeError], Exited 1)"
    by code_simp
  then show ?thesis by (simp add: main_def)
qed

text \<open>
  For comparison, the two layers on the file of the test suite, whose only data row is
  rejected with a \<open>ValueError\<close>: the loader warns and returns the empty list, and
  \<open>main\<close> ends the process with status 1.
\<close>

lemma two_layers_on_invalid_csv:
  "read_csv (file_with [Row header, Row row_invalid]) ''invalid.csv'' =
     ([Warning_skipping_row row_invalid ValueError, Warning_no_valid_records], Returned []) \<and>
   main yaml_dump (file_with [Row header, Row row_invalid]) writable
        (''invalid.csv'', 3, ''yaml'', None) =
     \<lparr>log = [Info_processing_file ''invalid.csv'',
             Warning_skipping_row row_invalid ValueError, Warning_no_valid_records,
             Error_no_valid_records],
      printed = None, written = None, exit_status = 1\<rparr>"
  using read_csv_test_files(2) main_fatal_on_empty [OF read_csv_test_files(2)] by simp

section \<open>Properties of the renderer\<close>

lemma foldl_append_entry: "foldl (\<lambda>out r. out @ [f r]) acc rs = acc @ map f rs"
  by (induction rs arbitrary: acc) simp_all

lemma format_to_json_document: "format_to_json records = json_dumps 2 (rendered_document records)"
  by (simp add: format_to_json_def rendered_document_def rendered_entry_def [abs_def]
      entry_name_def entry_details_def foldl_append_entry)

lemma format_to_yaml_document:
  "format_to_yaml yaml_dump records = yaml_dump False (rendered_document records)"
  by (simp add: format_to_yaml_def rendered_document_def rendered_entry_def [abs_def]
      entry_name_def entry_details_def foldl_append_entry)

lemma json_items_map: "json_items indent level (map f rs) = map (\<lambda>r. json_encode indent level (f r)) rs"
  by (induction rs) simp_all

lemma json_string_keys:
  "json_string ''records'' = quoted ''records''"
  "json_string ''name'' = quoted ''name''"
  "json_string ''details'' = quoted ''details''"
  by code_simp+

lemma json_entry_text_encode: "json_entry_text r = ''    '' @ json_encode 2 2 (rendered_entry r)"
  by (simp add: json_entry_text_def rendered_entry_def lines_def json_string_keys
      newline_indent_def numeral_eq_Suc)

lemma join_shift: "xs \<noteq> [] \<Longrightarrow> p @ join (sep @ p) xs = join sep (map (\<lambda>x. p @ x) xs)"
  by (induction "sep @ p" xs rule: join.induct) simp_all

lemma json_layout_eq: "json_dumps 2 (rendered_document rs) = json_layout rs"
proof (cases "rs = []")
  case True
  then show ?thesis
    by (simp add: json_dumps_def rendered_document_def json_layout_def lines_def
        json_string_keys newline_indent_def numeral_eq_Suc)
next
  case False
  have "''    '' @ join ([CHR '','', CHR 0x0A] @ ''    '')
           (map (\<lambda>r. json_encode 2 2 (rendered_entry r)) rs) =
        join [CHR '','', CHR 0x0A] (map json_entry_text rs)"
    using False
      join_shift [of "map (\<lambda>r. json_encode 2 2 (rendered_entry r)) rs" "''    ''"
        "[CHR '','', CHR 0x0A]"]
    by (simp add: json_entry_text_encode [abs_def] comp_def)
  then have "join [CHR '','', CHR 0x0A] (map json_entry_text rs) =
    ''    '' @ join (CHR '','' # newline_indent 2 2)
           (map (\<lambda>r. json_encode 2 2 (rendered_entry r)) rs)"
    by (simp add: newline_indent_def numeral_eq_Suc)
  with False show ?thesis
    by (simp add: json_dumps_def rendered_document_def json_layout_def lines_def
        json_string_keys newline_indent_def numeral_eq_Suc json_items_map)
qed

text \<open>
  C4. Both formatters serialize the same document: a dictionary with the single key
  \<open>records\<close> whose list holds, in input order, one entry per input record, each
  with the key \<open>name\<close> (first name, a space, last name) and then the key \<open>details\<close>
  (\<open>In division\<close>, the division, \<open>from\<close>, the date, \<open>performing\<close>, the summary).
  \<open>format_to_yaml\<close> hands it to the YAML emitter with key sorting switched off;
  \<open>format_to_json\<close> writes it as JSON text in which every level of nesting is
  indented by two more spaces and \<open>name\<close> stands before \<open>details\<close>.
\<close>

theorem formatters_render_document:
  "format_to_yaml yaml_dump records = yaml_dump False (rendered_document records) \<and>
   format_to_json records = json_dumps 2 (rendered_document records) \<and>
   format_to_json records = json_layout records"
  by (simp add: format_to_yaml_document format_to_json_document json_layout_eq)

theorem formatters_render_document_witness:
  "(\<forall>yaml_dump. format_to_yaml yaml_dump [john] =
      yaml_dump False
        (DDict [(''records'',
                 DList [DDict [(''name'', DStr ''John Doe''),
                               (''details'',
                                DStr ''In division 1 from 2023-05-05 performing Task A'')]])])) \<and>
   format_to_json [john] =
     lines [''{'',
            ''  '' @ quoted ''records'' @ '': ['',
            ''    {'',
            ''      '' @ quoted ''name'' @ '': '' @ quoted ''John Doe'' @ '','',
            ''      '' @ quoted ''details'' @ '': '' @
              quoted ''In division 1 from 2023-05-05 performing Task A'',
            ''    }'',
            ''  ]'',
            ''}''] \<and>
   format_to_json [] = lines [''{'', ''  '' @ quoted ''records'' @ '': []'', ''}'']"
proof -
  have d: "rendered_document [john] =
      DDict [(''records'',
              DList [DDict [(''name'', DStr ''John Doe''),
                            (''details'',
                             DStr ''In division 1 from 2023-05-05 performing Task A'')]])]"
    by code_simp
  have l: "json_layout [john] =
     lines [''{'',
            ''  '' @ quoted ''records'' @ '': ['',
            ''    {'',
            ''      '' @ quoted ''name'' @ '': '' @ quoted ''John Doe'' @ '','',
            ''      '' @ quoted ''details'' @ '': '' @
              quoted ''In division 1 from 2023-05-05 performing Task A'',
            ''    }'',
            ''  ]'',
            ''}'']"
    by code_simp
  have e: "json_layout [] = lines [''{'', ''  '' @ quoted ''records'' @ '': []'', ''}'']"
    by (simp add: json_layout_def)
  have y: "format_to_yaml yaml_dump [john] = yaml_dump False (rendered_document [john])"
    for yaml_dump
    using formatters_render_document [of yaml_dump "[john]"] by (rule conjunct1)
  have j: "format_to_json rs = json_layout rs" for rs
    using formatters_render_document [THEN conjunct2, THEN conjunct2, of rs] .
  from y j [of "[john]"] j [of "[]"] show ?thesis
    by (simp only: d l e simp_thms)
qed

subsection \<open>JSON string escaping loses nothing\<close>

text \<open>
  Whatever characters a name or a details sentence contains, the body that
  \<open>json.dumps\<close> writes between the quotes reads back as the same text.
\<close>

lemma hex_digits_all: "list_all (\<lambda>k. hex_value (hex_digit k) = Some k) [0..<16]"
  by code_simp

lemma hex_value_digit: "k < 16 \<Longrightarrow> hex_value (hex_digit k) = Some k"
  using hex_digits_all by (simp add: list_all_iff)

lemma hex_value_zero: "hex_value CHR ''0'' = Some 0"
  by code_simp

lemma hex4_escape:
  "hex4 CHR ''0'' CHR ''0'' (hex_digit (of_char c div 16)) (hex_digit (of_char c mod 16)) = Some c"
proof -
  let ?n = "of_char c :: nat"
  have lt: "?n < 256" by simp
  have hi: "?n div 16 < 16" by (rule less_mult_imp_div_less) simp
  have lo: "?n mod 16 < 16" by simp
  have "char_of (16 * (?n div 16) + ?n mod 16) = c" by simp
  then show ?thesis
    using lt by (simp add: hex4_def hex_value_zero hex_value_digit [OF hi] hex_value_digit [OF lo])
qed

lemma json_unescape_escape_char:
  "json_unescape (json_escape_char c @ rest) = map_option (Cons c) (json_unescape rest)"
proof -
  have short: "short_escape CHR 0x22 = Some CHR 0x22" "short_escape CHR 0x5C = Some CHR 0x5C"
    "short_escape CHR ''n'' = Some CHR 0x0A" "short_escape CHR ''r'' = Some CHR 0x0D"
    "short_escape CHR ''t'' = Some CHR 0x09" "short_escape CHR ''b'' = Some CHR 0x08"
    "short_escape CHR ''f'' = Some CHR 0x0C"
    by (simp_all add: short_escape_def)
  show ?thesis
    by (simp add: json_escape_char_def Let_def short hex4_escape)
qed

lemma json_unescape_escape: "json_unescape (concat (map json_escape_char s)) = Some s"
  by (induction s) (simp_all add: json_unescape_escape_char del: json_unescape.simps(2))

lemma json_string_reads_back:
  "json_string s = quoted (concat (map json_escape_char s)) \<and>
   json_unescape (concat (map json_escape_char s)) = Some s"
  by (simp add: json_string_def quoted_def json_unescape_escape)

end
